theory Spec2Isabelle
  imports Complex_Main "HOL-Library.Product_Lexorder"
begin

section \<open>Bounding boxes and IoU (build\_structure\_map.py)\<close>

text \<open>
  A bounding box is the tuple \<open>(x0, top, x1, bottom)\<close> of page coordinates.  Python
  floats are modelled as reals.  The only exception \<open>calculate_iou\<close> can raise on
  numeric input is the division by zero of its last line.
\<close>

datatype py_error = ZeroDivisionError

type_synonym bbox = "real \<times> real \<times> real \<times> real"

definition calculate_iou :: "bbox \<Rightarrow> bbox \<Rightarrow> py_error + real" where
  "calculate_iou box_a box_b =
     (case box_a of (a0, a1, a2, a3) \<Rightarrow>
      case box_b of (b0, b1, b2, b3) \<Rightarrow>
        let x_left = max a0 b0;
            y_top = max a1 b1;
            x_right = min a2 b2;
            y_bottom = min a3 b3
        in if x_right < x_left \<or> y_bottom < y_top then Inr 0
           else
             let intersection_area = (x_right - x_left) * (y_bottom - y_top);
                 box_a_area = (a2 - a0) * (a3 - a1);
                 box_b_area = (b2 - b0) * (b3 - b1);
                 denom = box_a_area + box_b_area - intersection_area
             in if denom = 0 then Inl ZeroDivisionError
                else Inr (intersection_area / denom))"

text \<open>The closed rectangle of page points covered by a box.\<close>

definition box_points :: "bbox \<Rightarrow> (real \<times> real) set" where
  "box_points b =
     (case b of (x0, y0, x1, y1) \<Rightarrow>
        {(x, y). x0 \<le> x \<and> x \<le> x1 \<and> y0 \<le> y \<and> y \<le> y1})"

section \<open>Page orientation (build\_structure\_map.py, lattice\_table.py)\<close>

datatype orientation = Portrait | Landscape

text \<open>\<open>analyze_page_layout\<close>, line 38: the orientation stored in the structure map.\<close>

definition layout_orientation :: "real \<Rightarrow> real \<Rightarrow> orientation" where
  "layout_orientation width height = (if width \<le> height then Portrait else Landscape)"

text \<open>\<open>analyze_page_layout\<close>, line 241: the recorded dimensions.\<close>

definition layout_dimensions :: "real \<Rightarrow> real \<Rightarrow> real list" where
  "layout_dimensions width height = [width, height]"

text \<open>\<open>extract_lattice_tables\<close>, lines 70-72: the orientation the stitcher works with.\<close>

definition lattice_orientation :: "real list \<Rightarrow> orientation" where
  "lattice_orientation dimensions =
     (let is_portrait = (if length dimensions \<ge> 2 then dimensions ! 0 < dimensions ! 1 else True)
      in if is_portrait then Portrait else Landscape)"

section \<open>Centered-text repair (lattice\_table.py)\<close>

text \<open>
  A cell of the raw grid is \<open>None\<close> or a string.  Characters are code points below 256;
  \<open>is_space\<close> lists those for which Python's \<open>str.isspace\<close> holds.
\<close>

type_synonym cell = "string option"










section \<open>Closed-cell search (lattice\_table\_detector.py)\<close>

text \<open>
  A ruling as the detector reads it: \<open>x0\<close>, \<open>top\<close>, \<open>x1\<close> and an optional
  \<open>bottom\<close>, read with \<open>line.get('bottom', line['top'])\<close>.
\<close>

record ruling =
  r_x0 :: real
  r_top :: real
  r_x1 :: real
  r_bottom :: "real option"

definition get_bottom :: "ruling \<Rightarrow> real" where
  "get_bottom v = (case r_bottom v of Some b \<Rightarrow> b | None \<Rightarrow> r_top v)"

type_synonym point = "real \<times> real"
type_synonym lattice_cell = "point \<times> point"

definition top_edge :: "ruling list \<Rightarrow> lattice_cell \<Rightarrow> bool" where
  "top_edge h_lines c = (case c of ((xa, ya), (xb, yb)) \<Rightarrow>
     list_ex (\<lambda>h. r_top h = ya \<and> r_x0 h \<le> xa \<and> r_x1 h \<ge> xb) h_lines)"

definition bottom_edge :: "ruling list \<Rightarrow> lattice_cell \<Rightarrow> bool" where
  "bottom_edge h_lines c = (case c of ((xa, ya), (xb, yb)) \<Rightarrow>
     list_ex (\<lambda>h. r_top h = yb \<and> r_x0 h \<le> xa \<and> r_x1 h \<ge> xb) h_lines)"

definition left_edge :: "ruling list \<Rightarrow> lattice_cell \<Rightarrow> bool" where
  "left_edge v_lines c = (case c of ((xa, ya), (xb, yb)) \<Rightarrow>
     list_ex (\<lambda>v. r_x0 v = xa \<and> r_top v \<le> ya \<and> get_bottom v \<ge> yb) v_lines)"

definition right_edge :: "ruling list \<Rightarrow> lattice_cell \<Rightarrow> bool" where
  "right_edge v_lines c = (case c of ((xa, ya), (xb, yb)) \<Rightarrow>
     list_ex (\<lambda>v. r_x0 v = xb \<and> r_top v \<le> ya \<and> get_bottom v \<ge> yb) v_lines)"

definition edges_count :: "ruling list \<Rightarrow> ruling list \<Rightarrow> lattice_cell \<Rightarrow> nat" where
  "edges_count h_lines v_lines c =
     length (filter id [top_edge h_lines c, bottom_edge h_lines c,
                        left_edge v_lines c, right_edge v_lines c])"

text \<open>The body of the double loop for the axis indices \<open>i\<close> and \<open>j\<close>.\<close>

definition cell_at ::
  "ruling list \<Rightarrow> ruling list \<Rightarrow> real list \<Rightarrow> real list \<Rightarrow> nat \<Rightarrow> nat \<Rightarrow> lattice_cell list" where
  "cell_at h_lines v_lines sorted_x sorted_y i j =
     (let xa = sorted_x ! i; ya = sorted_y ! j;
          xb = sorted_x ! (i + 1); yb = sorted_y ! (j + 1);
          cell_width = xb - xa;
          cell_height = yb - ya
      in if cell_width < 1 \<or> cell_height < 1 then []
         else if edges_count h_lines v_lines ((xa, ya), (xb, yb)) \<ge> 3
              then [((xa, ya), (xb, yb))] else [])"

definition find_closed_cells :: "ruling list \<Rightarrow> ruling list \<Rightarrow> point list \<Rightarrow> lattice_cell list" where
  "find_closed_cells h_lines v_lines intersections =
     (let sorted_x = sort (remdups (map fst intersections));
          sorted_y = sort (remdups (map snd intersections))
      in concat (map (\<lambda>i. concat (map (\<lambda>j. cell_at h_lines v_lines sorted_x sorted_y i j)
                                        [0..<length sorted_y - 1]))
                     [0..<length sorted_x - 1]))"

text \<open>\<open>find_line_intersections\<close>: exact crossings, duplicates removed in order of first
  occurrence.\<close>

definition find_line_intersections :: "ruling list \<Rightarrow> ruling list \<Rightarrow> point list" where
  "find_line_intersections h_lines v_lines =
     (let intersections =
            concat (map (\<lambda>h. map (\<lambda>v. (r_x0 v, r_top h))
                                 (filter (\<lambda>v. r_x0 h \<le> r_x0 v \<and> r_x0 v \<le> r_x1 h
                                               \<and> r_top v \<le> r_top h \<and> r_top h \<le> get_bottom v)
                                         v_lines))
                        h_lines)
      in rev (remdups (rev intersections)))"

section \<open>De-duplication of table candidates (build\_structure\_map.py)\<close>

text \<open>
  A geometry entry of a table element, and the table element itself, as the dictionaries
  the finders build.  A text-alignment candidate is the dictionary
  \<open>{"bbox": ..., "geometries": ...}\<close> returned by \<open>find_text_alignment_tables\<close>.
\<close>

record geometry =
  g_x0 :: real
  g_top :: real
  g_x1 :: real
  g_bottom :: real
  g_geom_type :: string

record table_element =
  t_bbox :: bbox
  t_parsing_strategy :: string
  t_reason :: string
  t_geometries :: "geometry list"

record text_candidate =
  c_bbox :: bbox
  c_geometries :: "geometry list"

text \<open>
  The inner \<open>for geo_bbox in geo_table_bboxes\<close> loop with its \<open>break\<close>; an exception of
  \<open>calculate_iou\<close> leaves the loop and the function.
\<close>

fun is_overlapping :: "bbox \<Rightarrow> bbox list \<Rightarrow> py_error + bool" where
  "is_overlapping text_bbox [] = Inr False"
| "is_overlapping text_bbox (geo_bbox # rest) =
     (case calculate_iou text_bbox geo_bbox of
        Inl e \<Rightarrow> Inl e
      | Inr iou \<Rightarrow> if iou > 1 / 10 then Inr True else is_overlapping text_bbox rest)"

definition text_only_table :: "text_candidate \<Rightarrow> table_element" where
  "text_only_table text_bbox_info =
     \<lparr>t_bbox = c_bbox text_bbox_info, t_parsing_strategy = ''text_only'',
      t_reason = ''Found by text alignment'', t_geometries = c_geometries text_bbox_info\<rparr>"

text \<open>The outer \<open>for text_bbox_info in text_table_bboxes\<close> loop, appending to \<open>final_tables\<close>.\<close>

fun dedup_loop ::
  "bbox list \<Rightarrow> text_candidate list \<Rightarrow> table_element list \<Rightarrow> py_error + table_element list" where
  "dedup_loop geo_table_bboxes [] final_tables = Inr final_tables"
| "dedup_loop geo_table_bboxes (text_bbox_info # rest) final_tables =
     (case is_overlapping (c_bbox text_bbox_info) geo_table_bboxes of
        Inl e \<Rightarrow> Inl e
      | Inr ov \<Rightarrow>
          dedup_loop geo_table_bboxes rest
            (if \<not> ov then final_tables @ [text_only_table text_bbox_info] else final_tables))"

definition deduplicate ::
  "table_element list \<Rightarrow> text_candidate list \<Rightarrow> py_error + table_element list" where
  "deduplicate geometric_tables text_table_bboxes =
     dedup_loop (map t_bbox geometric_tables) text_table_bboxes geometric_tables"

definition example_geo_table :: table_element where
  "example_geo_table =
     \<lparr>t_bbox = (0, 0, 10, 10), t_parsing_strategy = ''lattice'',
      t_reason = ''Found by lattice analysis (4 cells)'', t_geometries = []\<rparr>"

definition example_text_inside :: text_candidate where
  "example_text_inside = \<lparr>c_bbox = (0, 0, 10, 5), c_geometries = []\<rparr>"

definition example_text_apart :: text_candidate where
  "example_text_apart = \<lparr>c_bbox = (0, 20, 10, 30), c_geometries = []\<rparr>"

section \<open>Primitive classification (geometric\_table\_finder.py)\<close>

text \<open>
  \<open>page.lines\<close> and \<open>page.rects\<close> are lists of references to the page's own
  dictionaries.  The store holds the dictionaries, a reference is an index into it, and
  an assignment \<open>l['geom_type'] = ...\<close> updates the store at that reference.
\<close>

record primitive =
  p_x0 :: real
  p_top :: real
  p_x1 :: real
  p_bottom :: "real option"
  p_width :: real
  p_height :: real
  p_geom_type :: "string option"

type_synonym store = "primitive list"
type_synonym ref = nat

definition set_geom_type :: "store \<Rightarrow> ref \<Rightarrow> string \<Rightarrow> store" where
  "set_geom_type st a v = st[a := (st ! a)\<lparr>p_geom_type := Some v\<rparr>]"

definition p_get_bottom :: "primitive \<Rightarrow> real" where
  "p_get_bottom l = (case p_bottom l of Some b \<Rightarrow> b | None \<Rightarrow> p_top l)"

text \<open>The body of \<open>for l in lines\<close> up to \<open>all_geoms.append(l)\<close>.\<close>

definition classify_line :: "store \<Rightarrow> ref \<Rightarrow> store" where
  "classify_line st a =
     (let l = st ! a;
          width = p_x1 l - p_x0 l;
          height = p_get_bottom l - p_top l
      in if p_geom_type l = None \<or> p_geom_type l = Some ''line'' then
           (if p_x0 l = p_x1 l then set_geom_type st a ''line_vertical''
            else if p_top l = p_get_bottom l then set_geom_type st a ''line_horizontal''
            else if width > height then set_geom_type st a ''line_horizontal''
            else set_geom_type st a ''line_vertical'')
         else st)"

text \<open>The body of \<open>for r in rects\<close> up to \<open>all_geoms.append(r)\<close>.\<close>

definition classify_rect :: "store \<Rightarrow> ref \<Rightarrow> store" where
  "classify_rect st a =
     (let r = st ! a
      in if p_width r > 5 \<and> p_height r \<le> 1 then set_geom_type st a ''line_horizontal''
         else if p_height r > 5 \<and> p_width r \<le> 1 then set_geom_type st a ''line_vertical''
         else set_geom_type st a ''rect'')"

text \<open>Both loops: the store after them, and \<open>all_geoms\<close> as a list of references.\<close>

definition collect_all_geoms :: "store \<Rightarrow> ref list \<Rightarrow> ref list \<Rightarrow> store \<times> ref list" where
  "collect_all_geoms st lines rects =
     (let (st1, all_geoms1) = fold (\<lambda>l (st, all_geoms). (classify_line st l, all_geoms @ [l]))
                                    lines (st, []);
          (st2, all_geoms2) = fold (\<lambda>r (st, all_geoms). (classify_rect st r, all_geoms @ [r]))
                                    rects (st1, all_geoms1)
      in (st2, all_geoms2))"

definition example_line :: primitive where
  "example_line = \<lparr>p_x0 = 0, p_top = 5, p_x1 = 10, p_bottom = Some 5,
                    p_width = 10, p_height = 0, p_geom_type = None\<rparr>"

definition example_rect :: primitive where
  "example_rect = \<lparr>p_x0 = 0, p_top = 0, p_x1 = 1, p_bottom = Some 20,
                    p_width = 1, p_height = 20, p_geom_type = None\<rparr>"

section \<open>Placing words into columns (stream\_table.py, text\_only.py)\<close>

record word =
  w_text :: string
  w_x0 :: real
  w_x1 :: real
  w_top :: real
  w_bottom :: real

text \<open>What a placer prints about a word it could not place, with the 1-based row number.\<close>

datatype diagnostic =
    Unable_to_strictly_assign string nat
  | No_overlap_with_any_column string nat

text \<open>\<open>processed_row[col_idx]\<close> extended by a word, as both placers do it.\<close>

definition put_word :: "string list \<Rightarrow> nat \<Rightarrow> string \<Rightarrow> string list" where
  "put_word processed_row col_idx txt =
     (if processed_row ! col_idx \<noteq> [] then processed_row[col_idx := processed_row ! col_idx @ '' '' @ txt]
      else processed_row[col_idx := txt])"

subsection \<open>text\_only.py\<close>

text \<open>\<open>for i in range(1, len(column_separators))\<close> with its \<open>break\<close>, started on the
  separators after the first and \<open>col_idx = 0\<close>.\<close>

fun count_cols :: "real \<Rightarrow> real list \<Rightarrow> nat \<Rightarrow> nat" where
  "count_cols word_center [] col_idx = col_idx"
| "count_cols word_center (sep # rest) col_idx =
     (if word_center < sep then col_idx else count_cols word_center rest (col_idx + 1))"

text \<open>The body of \<open>for word in text_block.get('words', [])\<close>.  The loop prints nothing, so the
  list of diagnostics is handed on as it is.\<close>

definition text_only_place_word ::
  "real list \<Rightarrow> word \<Rightarrow> string list \<times> diagnostic list \<Rightarrow> string list \<times> diagnostic list" where
  "text_only_place_word column_separators wd st =
     (case st of (processed_row, printed) \<Rightarrow>
        let word_center = (w_x0 wd + w_x1 wd) / 2;
            col_idx = count_cols word_center (drop 1 column_separators) 0
        in if col_idx < length processed_row
           then (put_word processed_row col_idx (w_text wd), printed)
           else (processed_row, printed))"

text \<open>One row: a list of text blocks, each given by its words.\<close>

definition text_only_row :: "real list \<Rightarrow> word list list \<Rightarrow> string list \<times> diagnostic list" where
  "text_only_row column_separators row =
     fold (text_only_place_word column_separators) (concat row)
          (replicate (length column_separators - 1) [], [])"

text \<open>Step 4 of \<open>extract_text_only_tables\<close>: the separators with the table edges added.\<close>

definition with_table_edges :: "real list \<Rightarrow> real \<Rightarrow> real \<Rightarrow> real list" where
  "with_table_edges separators table_x0 table_x1 =
     (let column_separators = sort separators
      in if column_separators = [] then [table_x0, table_x1]
         else
           let s1 = (if hd column_separators > table_x0 + 5 then table_x0 # column_separators
                     else column_separators);
               s2 = (if last s1 < table_x1 - 5 then s1 @ [table_x1] else s1)
           in s2)"

subsection \<open>stream\_table.py\<close>

text \<open>The scan for the largest word count and the rows that have it.\<close>

definition count_step :: "word list \<Rightarrow> nat \<times> word list list \<Rightarrow> nat \<times> word list list" where
  "count_step words_in_row st =
     (case st of (max_words_count, max_words_rows) \<Rightarrow>
        let words_count = length words_in_row
        in if words_count > max_words_count then (words_count, [words_in_row])
           else if words_count = max_words_count then (max_words_count, max_words_rows @ [words_in_row])
           else (max_words_count, max_words_rows))"

definition max_words :: "word list list \<Rightarrow> nat \<times> word list list" where
  "max_words word_rows = fold count_step word_rows (0, [])"

text \<open>Collecting \<open>column_x0s\<close> and \<open>column_x1s\<close> from the rows of \<open>max_words_rows\<close>.\<close>

definition collect_word ::
  "nat \<Rightarrow> nat \<times> word \<Rightarrow> real list list \<times> real list list \<Rightarrow> real list list \<times> real list list" where
  "collect_word max_words_count iw st =
     (case iw of (col_idx, wd) \<Rightarrow> case st of (column_x0s, column_x1s) \<Rightarrow>
        if col_idx < max_words_count
        then (column_x0s[col_idx := column_x0s ! col_idx @ [w_x0 wd]],
              column_x1s[col_idx := column_x1s ! col_idx @ [w_x1 wd]])
        else (column_x0s, column_x1s))"

definition collect_columns :: "nat \<Rightarrow> word list list \<Rightarrow> real list list \<times> real list list" where
  "collect_columns max_words_count max_words_rows =
     fold (\<lambda>row st. fold (collect_word max_words_count) (enumerate 0 row) st) max_words_rows
          (replicate max_words_count [], replicate max_words_count [])"

text \<open>Python's \<open>min\<close> and \<open>max\<close> of a non-empty list.\<close>

definition py_min :: "real list \<Rightarrow> real" where
  "py_min xs = fold min (tl xs) (hd xs)"

definition py_max :: "real list \<Rightarrow> real" where
  "py_max xs = fold max (tl xs) (hd xs)"

definition column_boundaries :: "nat \<Rightarrow> word list list \<Rightarrow> (real \<times> real) list" where
  "column_boundaries max_words_count max_words_rows =
     (case collect_columns max_words_count max_words_rows of (column_x0s, column_x1s) \<Rightarrow>
        concat (map (\<lambda>i. if column_x0s ! i \<noteq> [] \<and> column_x1s ! i \<noteq> []
                          then [(py_min (column_x0s ! i), py_max (column_x1s ! i))] else [])
                    [0..<max_words_count]))"

definition stream_boundaries :: "word list list \<Rightarrow> (real \<times> real) list" where
  "stream_boundaries word_rows =
     (case max_words word_rows of (max_words_count, max_words_rows) \<Rightarrow>
        column_boundaries max_words_count max_words_rows)"

definition is_standard_row :: "word list list \<Rightarrow> word list \<Rightarrow> bool" where
  "is_standard_row word_rows words_in_row = (length words_in_row = fst (max_words word_rows))"

text \<open>Standard rows: the first boundary that contains the word, with 1 unit of tolerance.\<close>

fun strict_column :: "real \<Rightarrow> real \<Rightarrow> (real \<times> real) list \<Rightarrow> nat \<Rightarrow> nat option" where
  "strict_column word_x0 word_x1 [] col_idx = None"
| "strict_column word_x0 word_x1 ((col_x0, col_x1) # rest) col_idx =
     (if word_x0 \<ge> col_x0 - 1 \<and> word_x1 \<le> col_x1 + 1 then Some col_idx
      else strict_column word_x0 word_x1 rest (col_idx + 1))"

text \<open>Other rows: the boundary of largest overlap; \<open>best_col_idx\<close> starts as -1, here
  \<open>None\<close>.\<close>

fun best_column ::
  "real \<Rightarrow> real \<Rightarrow> (real \<times> real) list \<Rightarrow> nat \<Rightarrow> real \<times> nat option \<Rightarrow> real \<times> nat option" where
  "best_column word_x0 word_x1 [] col_idx st = st"
| "best_column word_x0 word_x1 ((col_x0, col_x1) # rest) col_idx (max_overlap, best_col_idx) =
     (let overlap_start = max word_x0 col_x0;
          overlap_end = min word_x1 col_x1;
          overlap = max 0 (overlap_end - overlap_start)
      in best_column word_x0 word_x1 rest (col_idx + 1)
           (if overlap > max_overlap then (overlap, Some col_idx) else (max_overlap, best_col_idx)))"

definition stream_place_word ::
  "(real \<times> real) list \<Rightarrow> bool \<Rightarrow> nat \<Rightarrow> word \<Rightarrow> string list \<times> diagnostic list
     \<Rightarrow> string list \<times> diagnostic list" where
  "stream_place_word boundaries standard row_idx wd st =
     (case st of (processed_row, printed) \<Rightarrow>
        if standard then
          (case strict_column (w_x0 wd) (w_x1 wd) boundaries 0 of
             Some col_idx \<Rightarrow> (put_word processed_row col_idx (w_text wd), printed)
           | None \<Rightarrow> (processed_row, printed @ [Unable_to_strictly_assign (w_text wd) (row_idx + 1)]))
        else
          (case snd (best_column (w_x0 wd) (w_x1 wd) boundaries 0 (0, None)) of
             Some best_col_idx \<Rightarrow> (put_word processed_row best_col_idx (w_text wd), printed)
           | None \<Rightarrow> (processed_row, printed @ [No_overlap_with_any_column (w_text wd) (row_idx + 1)])))"

definition stream_row ::
  "(real \<times> real) list \<Rightarrow> nat \<Rightarrow> nat \<Rightarrow> word list \<Rightarrow> string list \<times> diagnostic list" where
  "stream_row boundaries max_words_count row_idx words_in_row =
     fold (stream_place_word boundaries (length words_in_row = max_words_count) row_idx)
          words_in_row (replicate (length boundaries) [], [])"

definition mk_word :: "string \<Rightarrow> real \<Rightarrow> real \<Rightarrow> word" where
  "mk_word txt a b = \<lparr>w_text = txt, w_x0 = a, w_x1 = b, w_top = 0, w_bottom = 10\<rparr>"

section \<open>The most common count (text\_alignment\_table\_finder.py)\<close>

text \<open>
  \<open>Counter(counts).most_common(1)[0][0]\<close> on a non-empty list: the value with the most
  occurrences, the one met first among equals.
\<close>

definition most_common :: "nat list \<Rightarrow> nat" where
  "most_common counts =
     fold (\<lambda>c best. if count_list counts c > count_list counts best then c else best)
          (tl counts) (hd counts)"

text \<open>Three rows of a stream table: two with one word, one with two words.\<close>

definition example_word_rows :: "word list list" where
  "example_word_rows =
     [[mk_word ''Total'' 0 20], [mk_word ''Sum'' 2 18], [mk_word ''a'' 0 5, mk_word ''b'' 30 35]]"

section \<open>Text-alignment detector (text\_alignment\_table\_finder.py)\<close>




















section \<open>Cross-page stitcher (lattice\_table.py)\<close>

text \<open>
  The dictionary \<open>table_info\<close> of an extracted lattice table; \<open>is_merged\<close> and
  \<open>merged_pages\<close> are absent (False, empty) until the stitcher sets them.  The key
  \<open>id\<close> the stitcher adds is \<open>(page_num, table_index)\<close>.
\<close>

record table_info =
  ti_page_num :: nat
  ti_table_index :: nat
  ti_bbox :: bbox
  ti_data :: "cell list list"
  ti_max_cols :: nat
  ti_orientation :: orientation
  ti_is_merged :: bool
  ti_merged_pages :: "nat list"

definition bbox_x0 :: "bbox \<Rightarrow> real" where "bbox_x0 b = fst b"
definition bbox_y0 :: "bbox \<Rightarrow> real" where "bbox_y0 b = fst (snd b)"
definition bbox_x1 :: "bbox \<Rightarrow> real" where "bbox_x1 b = fst (snd (snd b))"
definition bbox_y1 :: "bbox \<Rightarrow> real" where "bbox_y1 b = snd (snd (snd b))"

definition table_id :: "table_info \<Rightarrow> nat \<times> nat" where
  "table_id t = (ti_page_num t, ti_table_index t)"

text \<open>Python's \<open>max(tables, key=...)\<close> and \<open>min(tables, key=...)\<close> on a non-empty list:
  the first element that attains the extreme key.\<close>

definition max_by :: "('a \<Rightarrow> real) \<Rightarrow> 'a list \<Rightarrow> 'a" where
  "max_by key xs = fold (\<lambda>x best. if key x > key best then x else best) (tl xs) (hd xs)"

definition min_by :: "('a \<Rightarrow> real) \<Rightarrow> 'a list \<Rightarrow> 'a" where
  "min_by key xs = fold (\<lambda>x best. if key x < key best then x else best) (tl xs) (hd xs)"

text \<open>Lookups in \<open>tables_by_page\<close>, \<open>bottom_tables_by_page\<close> and
  \<open>top_tables_by_page\<close>, computed from the sorted table list.\<close>

definition tables_by_page :: "table_info list \<Rightarrow> nat \<Rightarrow> table_info list" where
  "tables_by_page all_tables page_num = filter (\<lambda>t. ti_page_num t = page_num) all_tables"

definition bottom_tables_by_page :: "table_info list \<Rightarrow> nat \<Rightarrow> table_info" where
  "bottom_tables_by_page all_tables page_num =
     max_by (\<lambda>x. bbox_y1 (ti_bbox x)) (tables_by_page all_tables page_num)"

definition top_tables_by_page :: "table_info list \<Rightarrow> nat \<Rightarrow> table_info" where
  "top_tables_by_page all_tables page_num =
     min_by (\<lambda>x. bbox_y0 (ti_bbox x)) (tables_by_page all_tables page_num)"

text \<open>The global extremes of one orientation, 0 where it has no table.\<close>

definition max_global_y1 :: "table_info list \<Rightarrow> orientation \<Rightarrow> real" where
  "max_global_y1 all_tables ori =
     (let y1_values = map (\<lambda>t. bbox_y1 (ti_bbox t)) (filter (\<lambda>t. ti_orientation t = ori) all_tables)
      in if y1_values \<noteq> [] then py_max y1_values else 0)"

definition min_global_y0 :: "table_info list \<Rightarrow> orientation \<Rightarrow> real" where
  "min_global_y0 all_tables ori =
     (let y0_values = map (\<lambda>t. bbox_y0 (ti_bbox t)) (filter (\<lambda>t. ti_orientation t = ori) all_tables)
      in if y0_values \<noteq> [] then py_min y0_values else 0)"

text \<open>The tests of one loop iteration once both tables are chosen.\<close>

definition should_merge :: "table_info list \<Rightarrow> table_info \<Rightarrow> table_info \<Rightarrow> bool" where
  "should_merge all_tables current_bottom_table next_top_table =
     (let y0_tolerance = 2;
          y1_tolerance = 12;
          ori = ti_orientation current_bottom_table;
          is_bottom_y1_max =
            (max_global_y1 all_tables ori - bbox_y1 (ti_bbox current_bottom_table) \<le> y1_tolerance);
          is_top_y0_min =
            (bbox_y0 (ti_bbox next_top_table) - min_global_y0 all_tables ori \<le> y0_tolerance);
          cols_match = (ti_max_cols current_bottom_table = ti_max_cols next_top_table);
          x_aligned =
            (\<bar>bbox_x0 (ti_bbox current_bottom_table) - bbox_x0 (ti_bbox next_top_table)\<bar> < 10
             \<and> \<bar>bbox_x1 (ti_bbox current_bottom_table) - bbox_x1 (ti_bbox next_top_table)\<bar> < 10)
      in cols_match \<and> x_aligned \<and> (is_bottom_y1_max \<or> is_top_y0_min))"

definition merged_table :: "table_info \<Rightarrow> table_info \<Rightarrow> nat \<Rightarrow> nat \<Rightarrow> table_info" where
  "merged_table current_bottom_table next_top_table current_page next_page =
     current_bottom_table
       \<lparr>ti_data := ti_data current_bottom_table @ ti_data next_top_table,
        ti_bbox := (bbox_x0 (ti_bbox current_bottom_table), bbox_y0 (ti_bbox current_bottom_table),
                    bbox_x1 (ti_bbox current_bottom_table), bbox_y1 (ti_bbox next_top_table)),
        ti_is_merged := True,
        ti_merged_pages := [current_page, next_page]\<rparr>"

text \<open>The loop state: \<open>merged_tables\<close> and \<open>processed_table_ids\<close>; \<open>merge_step\<close> is the
  body of \<open>for i in range(len(page_nums) - 1)\<close> for the pair
  \<open>(page_nums[i], page_nums[i + 1])\<close>.\<close>

type_synonym merge_state = "table_info list \<times> (nat \<times> nat) set"

definition merge_step :: "table_info list \<Rightarrow> nat \<times> nat \<Rightarrow> merge_state \<Rightarrow> merge_state" where
  "merge_step all_tables pages st =
     (case pages of (current_page, next_page) \<Rightarrow>
      case st of (merged_tables, processed_table_ids) \<Rightarrow>
        if next_page \<noteq> current_page + 1 then st
        else if tables_by_page all_tables current_page = []
                \<or> tables_by_page all_tables next_page = [] then st
        else
          let current_bottom_table = bottom_tables_by_page all_tables current_page
          in if table_id current_bottom_table \<in> processed_table_ids then st
             else
               let next_top_table = top_tables_by_page all_tables next_page
               in if table_id next_top_table \<in> processed_table_ids then st
                  else if ti_orientation current_bottom_table \<noteq> ti_orientation next_top_table then st
                  else if should_merge all_tables current_bottom_table next_top_table
                  then (merged_tables @ [merged_table current_bottom_table next_top_table
                                            current_page next_page],
                        insert (table_id next_top_table)
                          (insert (table_id current_bottom_table) processed_table_ids))
                  else (merged_tables @ [current_bottom_table],
                        insert (table_id current_bottom_table) processed_table_ids))"

text \<open>Appending a table unless its id is already processed, as the two closing blocks
  do.\<close>

definition add_unprocessed :: "table_info \<Rightarrow> merge_state \<Rightarrow> merge_state" where
  "add_unprocessed t st =
     (case st of (merged_tables, processed_table_ids) \<Rightarrow>
        if table_id t \<notin> processed_table_ids
        then (merged_tables @ [t], insert (table_id t) processed_table_ids)
        else st)"

definition merge_cross_page_tables :: "table_info list \<Rightarrow> table_info list" where
  "merge_cross_page_tables tables =
     (if tables = [] then []
      else
        let all_tables = sort_key (\<lambda>x. (ti_page_num x, bbox_y0 (ti_bbox x))) tables;
            page_nums = sort (remdups (map ti_page_num all_tables));
            st1 = fold (merge_step all_tables) (zip page_nums (tl page_nums)) ([], {});
            last_page = last page_nums;
            st2 = add_unprocessed (bottom_tables_by_page all_tables last_page) st1;
            st3 = fold add_unprocessed all_tables st2
        in fst st3)"

text \<open>Portrait tables of three columns: a chain over three pages, and two pages whose
  tables are shifted by exactly 10 units.\<close>

definition mk_table :: "nat \<Rightarrow> bbox \<Rightarrow> cell list list \<Rightarrow> table_info" where
  "mk_table page_num b rows =
     \<lparr>ti_page_num = page_num, ti_table_index = 1, ti_bbox = b, ti_data = rows,
      ti_max_cols = 3, ti_orientation = Portrait, ti_is_merged = False, ti_merged_pages = []\<rparr>"

definition example_chain :: "table_info list" where
  "example_chain =
     [mk_table 1 (50, 100, 500, 700) [[Some ''a'', Some ''b'', Some ''c'']],
      mk_table 2 (50, 100, 500, 700) [[Some ''d'', Some ''e'', Some ''f'']],
      mk_table 3 (50, 100, 500, 700) [[Some ''g'', Some ''h'', Some ''i'']]]"


definition example_offset :: "table_info list" where
  "example_offset =
     [mk_table 1 (50, 100, 500, 700) [[Some ''a'', Some ''b'', Some ''c'']],
      mk_table 2 (60, 100, 510, 700) [[Some ''d'', Some ''e'', Some ''f'']]]"

text \<open>A small page: two horizontal rulings, a full left ruling and a right ruling that
  stops half way.\<close>

definition example_h_lines :: "ruling list" where
  "example_h_lines = [\<lparr>r_x0 = 0, r_top = 0, r_x1 = 10, r_bottom = Some 0\<rparr>,
                      \<lparr>r_x0 = 0, r_top = 10, r_x1 = 10, r_bottom = None\<rparr>]"

definition example_v_lines :: "ruling list" where
  "example_v_lines = [\<lparr>r_x0 = 0, r_top = 0, r_x1 = 0, r_bottom = Some 10\<rparr>,
                      \<lparr>r_x0 = 10, r_top = 0, r_x1 = 10, r_bottom = Some 5\<rparr>]"

section \<open>Properties of IoU\<close>

lemma calculate_iou_commute: "calculate_iou a b = calculate_iou b a"
  by (cases a; cases b)
     (simp add: calculate_iou_def Let_def max.commute min.commute add.commute)

lemma calculate_iou_disjoint:
  assumes "box_points a \<inter> box_points b = {}"
  shows "calculate_iou a b = Inr 0"
proof -
  obtain a0 a1 a2 a3 where a: "a = (a0, a1, a2, a3)" by (cases a)
  obtain b0 b1 b2 b3 where b: "b = (b0, b1, b2, b3)" by (cases b)
  have "min a2 b2 < max a0 b0 \<or> min a3 b3 < max a1 b1"
  proof (rule ccontr)
    assume "\<not> ?thesis"
    then have x: "max a0 b0 \<le> min a2 b2" and y: "max a1 b1 \<le> min a3 b3" by auto
    have "(max a0 b0, max a1 b1) \<in> box_points a \<inter> box_points b"
      using x y by (auto simp: a b box_points_def)
    with assms show False by blast
  qed
  then show ?thesis by (auto simp: a b calculate_iou_def Let_def)
qed

lemma calculate_iou_same:
  assumes "x0 < x1" and "y0 < y1"
  shows "calculate_iou (x0, y0, x1, y1) (x0, y0, x1, y1) = Inr 1"
proof -
  have "(x1 - x0) * (y1 - y0) > 0" using assms by simp
  then show ?thesis using assms by (simp add: calculate_iou_def Let_def)
qed

text \<open>
  Claim C5, as the code has it: \<open>calculate_iou\<close> is symmetric for every pair of boxes
  (a raised division by zero included), it is 0 whenever the two closed rectangles
  share no point, and it is 1 for two identical boxes of positive width and height.
\<close>

theorem calculate_iou_properties:
  "calculate_iou a b = calculate_iou b a
   \<and> (box_points a \<inter> box_points b = {} \<longrightarrow> calculate_iou a b = Inr 0)
   \<and> (x0 < x1 \<and> y0 < y1 \<longrightarrow>
        calculate_iou (x0, y0, x1, y1) (x0, y0, x1, y1) = Inr 1)"
  using calculate_iou_commute calculate_iou_disjoint calculate_iou_same by blast

theorem calculate_iou_properties_witness:
  "calculate_iou (0, 0, 2, 2) (1, 1, 3, 3) = calculate_iou (1, 1, 3, 3) (0, 0, 2, 2)
   \<and> box_points (0, 0, 1, 1) \<inter> box_points (2, 2, 3, 3) = {}
   \<and> calculate_iou (0, 0, 1, 1) (2, 2, 3, 3) = Inr 0
   \<and> calculate_iou (0, 0, 2, 3) (0, 0, 2, 3) = Inr 1"
proof -
  have d: "box_points (0, 0, 1, 1) \<inter> box_points (2, 2, 3, 3) = {}"
    by (auto simp: box_points_def)
  have w: "(0::real) < 2 \<and> (0::real) < 3" by simp
  from calculate_iou_properties [of "(0, 0, 1, 1)" "(2, 2, 3, 3)" 0 2 0 3] d w
  have "calculate_iou (0, 0, 1, 1) (2, 2, 3, 3) = Inr 0"
    and "calculate_iou (0, 0, 2, 3) (0, 0, 2, 3) = Inr 1" by blast+
  moreover have "calculate_iou (0, 0, 2, 2) (1, 1, 3, 3) = calculate_iou (1, 1, 3, 3) (0, 0, 2, 2)"
    using calculate_iou_properties [of "(0, 0, 2, 2)" "(1, 1, 3, 3)" 0 1 0 1] by blast
  ultimately show ?thesis using d by blast
qed

text \<open>
  The claim as written fails on a box of zero height, such as the box of a horizontal
  ruling: both areas and the intersection are 0 and the division raises.
\<close>

theorem calculate_iou_identical_counterexample:
  "calculate_iou (0, 5, 10, 5) (0, 5, 10, 5) = Inl ZeroDivisionError
   \<and> calculate_iou (0, 5, 10, 5) (0, 5, 10, 5) \<noteq> Inr 1"
  by (simp add: calculate_iou_def Let_def)

section \<open>Properties of the two orientation tests\<close>

text \<open>
  Claim C10: on a square page the structure map records portrait, while the lattice
  extractor derives landscape from the recorded dimensions of the same page.
\<close>

theorem orientation_square_page_differs:
  "layout_orientation 100 100 = Portrait
   \<and> lattice_orientation (layout_dimensions 100 100) = Landscape"
  by (simp add: layout_orientation_def lattice_orientation_def layout_dimensions_def)

lemma orientation_agree_iff:
  "lattice_orientation (layout_dimensions w h) = layout_orientation w h \<longleftrightarrow> w \<noteq> h"
  by (auto simp: layout_orientation_def lattice_orientation_def layout_dimensions_def)

section \<open>Properties of the centered-text repair\<close>







section \<open>Properties of the closed-cell search\<close>

lemma cell_at_sound:
  assumes "c \<in> set (cell_at h_lines v_lines sx sy i j)"
  shows "edges_count h_lines v_lines c \<ge> 3 \<and> fst (snd c) - fst (fst c) \<ge> 1
         \<and> snd (snd c) - snd (fst c) \<ge> 1"
  using assms by (auto simp: cell_at_def Let_def split: if_splits)

lemma find_closed_cells_sound:
  assumes "c \<in> set (find_closed_cells h_lines v_lines intersections)"
  shows "edges_count h_lines v_lines c \<ge> 3 \<and> fst (snd c) - fst (fst c) \<ge> 1
         \<and> snd (snd c) - snd (fst c) \<ge> 1"
proof -
  from assms obtain sx sy i j where "c \<in> set (cell_at h_lines v_lines sx sy i j)"
    by (auto simp: find_closed_cells_def Let_def)
  then show ?thesis by (rule cell_at_sound)
qed

lemma edges_count_ge3:
  "edges_count h v c \<ge> 3 \<longleftrightarrow>
     (top_edge h c \<and> bottom_edge h c \<and> left_edge v c)
   \<or> (top_edge h c \<and> bottom_edge h c \<and> right_edge v c)
   \<or> (top_edge h c \<and> left_edge v c \<and> right_edge v c)
   \<or> (bottom_edge h c \<and> left_edge v c \<and> right_edge v c)"
  by (auto simp: edges_count_def)

lemma example_intersections:
  "find_line_intersections example_h_lines example_v_lines = [(0, 0), (10, 0), (0, 10)]"
  by (simp add: find_line_intersections_def example_h_lines_def example_v_lines_def
        get_bottom_def)

lemma example_closed_cells:
  "find_closed_cells example_h_lines example_v_lines [(0, 0), (10, 0), (0, 10)]
     = [((0, 0), (10, 10))]"
  by (simp add: find_closed_cells_def cell_at_def edges_count_def top_edge_def bottom_edge_def
        left_edge_def right_edge_def example_h_lines_def example_v_lines_def get_bottom_def)

text \<open>
  Claim C3: every cell returned by \<open>find_closed_cells\<close> is at least 1 unit wide and
  1 unit high, and at least 3 of its 4 edges are covered end to end, with exact
  coordinate equality, by one ruling each.
\<close>

theorem find_closed_cells_invariant:
  assumes "((xa, ya), (xb, yb)) \<in> set (find_closed_cells h_lines v_lines intersections)"
  shows "xb - xa \<ge> 1 \<and> yb - ya \<ge> 1
     \<and> 3 \<le> length (filter id
          [\<exists>h\<in>set h_lines. r_top h = ya \<and> r_x0 h \<le> xa \<and> xb \<le> r_x1 h,
           \<exists>h\<in>set h_lines. r_top h = yb \<and> r_x0 h \<le> xa \<and> xb \<le> r_x1 h,
           \<exists>v\<in>set v_lines. r_x0 v = xa \<and> r_top v \<le> ya \<and> yb \<le> get_bottom v,
           \<exists>v\<in>set v_lines. r_x0 v = xb \<and> r_top v \<le> ya \<and> yb \<le> get_bottom v])"
proof -
  from find_closed_cells_sound [OF assms]
  have e: "edges_count h_lines v_lines ((xa, ya), (xb, yb)) \<ge> 3"
    and w: "xb - xa \<ge> 1" and h: "yb - ya \<ge> 1" by simp_all
  have "edges_count h_lines v_lines ((xa, ya), (xb, yb)) =
        length (filter id
          [\<exists>h\<in>set h_lines. r_top h = ya \<and> r_x0 h \<le> xa \<and> xb \<le> r_x1 h,
           \<exists>h\<in>set h_lines. r_top h = yb \<and> r_x0 h \<le> xa \<and> xb \<le> r_x1 h,
           \<exists>v\<in>set v_lines. r_x0 v = xa \<and> r_top v \<le> ya \<and> yb \<le> get_bottom v,
           \<exists>v\<in>set v_lines. r_x0 v = xb \<and> r_top v \<le> ya \<and> yb \<le> get_bottom v])"
    unfolding edges_count_def top_edge_def bottom_edge_def left_edge_def right_edge_def
      list_ex_iff by simp
  with e w h show ?thesis by simp
qed

theorem find_closed_cells_invariant_witness:
  "((0, 0), (10, 10)) \<in> set (find_closed_cells example_h_lines example_v_lines
        (find_line_intersections example_h_lines example_v_lines))
   \<and> (10::real) - 0 \<ge> 1
   \<and> 3 \<le> length (filter id
          [\<exists>h\<in>set example_h_lines. r_top h = 0 \<and> r_x0 h \<le> 0 \<and> 10 \<le> r_x1 h,
           \<exists>h\<in>set example_h_lines. r_top h = 10 \<and> r_x0 h \<le> 0 \<and> 10 \<le> r_x1 h,
           \<exists>v\<in>set example_v_lines. r_x0 v = 0 \<and> r_top v \<le> 0 \<and> 10 \<le> get_bottom v,
           \<exists>v\<in>set example_v_lines. r_x0 v = 10 \<and> r_top v \<le> 0 \<and> 10 \<le> get_bottom v])"
proof -
  have m: "((0, 0), (10, 10)) \<in> set (find_closed_cells example_h_lines example_v_lines
        (find_line_intersections example_h_lines example_v_lines))"
    by (simp only: example_intersections example_closed_cells) simp
  from find_closed_cells_invariant [OF m] m show ?thesis by simp
qed

section \<open>Properties of the de-duplication\<close>

lemma is_overlapping_hit:
  assumes "is_overlapping b gs = Inr ov" and "g \<in> set gs"
    and "calculate_iou b g = Inr v" and "v > 1 / 10"
  shows "ov"
  using assms
  by (induction gs) (auto split: sum.splits if_splits)

lemma dedup_loop_elements:
  assumes "dedup_loop gs ts acc = Inr final" and "e \<in> set final"
  shows "e \<in> set acc
       \<or> (\<exists>t\<in>set ts. e = text_only_table t \<and> is_overlapping (c_bbox t) gs = Inr False)"
  using assms
proof (induction ts arbitrary: acc)
  case Nil
  then show ?case by simp
next
  case (Cons t ts)
  from Cons.prems(1) obtain ov where ov: "is_overlapping (c_bbox t) gs = Inr ov"
    and rest: "dedup_loop gs ts (if \<not> ov then acc @ [text_only_table t] else acc) = Inr final"
    by (auto split: sum.splits)
  from Cons.IH [OF rest Cons.prems(2)] ov show ?case
    by (cases ov) auto
qed

lemma example_deduplicate:
  "deduplicate [example_geo_table] [example_text_inside, example_text_apart]
     = Inr [example_geo_table, text_only_table example_text_apart]"
  by (simp add: deduplicate_def example_geo_table_def example_text_inside_def
        example_text_apart_def calculate_iou_def Let_def)

text \<open>
  Claim C4: when the de-duplication of a page returns its final tables, a text-alignment
  candidate whose IoU with some geometric candidate exceeds 0.10 has no text-only table
  with its bounding box among them.  (The geometric finder tags its tables lattice or
  stream only.)
\<close>

theorem deduplicate_discards_overlapping:
  assumes "deduplicate geometric_tables text_table_bboxes = Inr final_tables"
    and "t \<in> set text_table_bboxes"
    and "g \<in> set geometric_tables"
    and "calculate_iou (c_bbox t) (t_bbox g) = Inr iou"
    and "iou > 1 / 10"
    and "\<forall>g\<in>set geometric_tables. t_parsing_strategy g \<noteq> ''text_only''"
  shows "\<not> (\<exists>e\<in>set final_tables. t_parsing_strategy e = ''text_only'' \<and> t_bbox e = c_bbox t)"
proof
  assume "\<exists>e\<in>set final_tables. t_parsing_strategy e = ''text_only'' \<and> t_bbox e = c_bbox t"
  then obtain e where e: "e \<in> set final_tables" "t_parsing_strategy e = ''text_only''"
    "t_bbox e = c_bbox t" by blast
  from assms(1) e(1)
  have "e \<in> set geometric_tables
       \<or> (\<exists>t'\<in>set text_table_bboxes. e = text_only_table t'
            \<and> is_overlapping (c_bbox t') (map t_bbox geometric_tables) = Inr False)"
    unfolding deduplicate_def by (rule dedup_loop_elements)
  then show False
  proof
    assume "e \<in> set geometric_tables"
    with assms(6) e(2) show False by blast
  next
    assume "\<exists>t'\<in>set text_table_bboxes. e = text_only_table t'
            \<and> is_overlapping (c_bbox t') (map t_bbox geometric_tables) = Inr False"
    then obtain t' where t': "e = text_only_table t'"
      "is_overlapping (c_bbox t') (map t_bbox geometric_tables) = Inr False" by blast
    from t'(1) e(3) have "c_bbox t' = c_bbox t" by (simp add: text_only_table_def)
    with t'(2) have "is_overlapping (c_bbox t) (map t_bbox geometric_tables) = Inr False"
      by simp
    moreover have "t_bbox g \<in> set (map t_bbox geometric_tables)" using assms(3) by simp
    ultimately have False using assms(4,5) by (rule is_overlapping_hit)
    then show False .
  qed
qed

theorem deduplicate_discards_overlapping_witness:
  "deduplicate [example_geo_table] [example_text_inside, example_text_apart]
     = Inr [example_geo_table, text_only_table example_text_apart]
   \<and> calculate_iou (c_bbox example_text_inside) (t_bbox example_geo_table) = Inr (1 / 2)
   \<and> \<not> (\<exists>e\<in>set [example_geo_table, text_only_table example_text_apart].
          t_parsing_strategy e = ''text_only'' \<and> t_bbox e = c_bbox example_text_inside)"
proof -
  have i: "calculate_iou (c_bbox example_text_inside) (t_bbox example_geo_table) = Inr (1 / 2)"
    by (simp add: example_text_inside_def example_geo_table_def calculate_iou_def Let_def)
  have s: "\<forall>g\<in>set [example_geo_table]. t_parsing_strategy g \<noteq> ''text_only''"
    by (simp add: example_geo_table_def)
  have "\<not> (\<exists>e\<in>set [example_geo_table, text_only_table example_text_apart].
          t_parsing_strategy e = ''text_only'' \<and> t_bbox e = c_bbox example_text_inside)"
    by (rule deduplicate_discards_overlapping [OF example_deduplicate _ _ i _ s]) simp_all
  with example_deduplicate i show ?thesis by blast
qed

section \<open>Properties of the primitive classification\<close>

text \<open>
  Claim C9: \<open>find_geometric_tables\<close> writes the orientation tag into the page's own
  dictionaries.  After the two loops the store has changed at the references of the
  input line and of the input rectangle, and \<open>all_geoms\<close> holds those same references.
\<close>

theorem classification_mutates_input:
  "collect_all_geoms [example_line, example_rect] [0] [1]
     = ([example_line\<lparr>p_geom_type := Some ''line_horizontal''\<rparr>,
         example_rect\<lparr>p_geom_type := Some ''line_vertical''\<rparr>], [0, 1])
   \<and> fst (collect_all_geoms [example_line, example_rect] [0] [1]) \<noteq> [example_line, example_rect]"
  by (simp add: collect_all_geoms_def classify_line_def classify_rect_def set_geom_type_def
        p_get_bottom_def example_line_def example_rect_def)

section \<open>Properties of the word placers\<close>

lemma text_only_fold_prints_nothing:
  "snd (fold (text_only_place_word column_separators) ws (processed_row, printed)) = printed"
  by (induction ws arbitrary: processed_row)
     (simp_all add: text_only_place_word_def Let_def)

lemma text_only_row_prints_nothing: "snd (text_only_row column_separators row) = []"
  by (simp add: text_only_row_def text_only_fold_prints_nothing)

text \<open>
  Claim C8: the text-only placer drops a word whose centre is not left of the last
  separator and prints nothing, while the stream placer reports a word that overlaps
  no boundary.  The table spans 0 to 14 with one virtual line at 10: the right edge lies
  within 5 units of it and is not added, so the row has a single cell and the word
  spanning 12 to 14 (centre 13) has no cell to go to.
\<close>

theorem text_only_drops_word_silently:
  "with_table_edges [10] 0 14 = [0, 10]
   \<and> text_only_row (with_table_edges [10] 0 14) [[mk_word ''A'' 0 8], [mk_word ''B'' 12 14]]
       = ([''A''], [])
   \<and> stream_row [(0, 8)] 3 0 [mk_word ''A'' 0 8, mk_word ''B'' 12 14]
       = ([''A''], [No_overlap_with_any_column ''B'' 1])"
proof -
  have e: "with_table_edges [10] 0 14 = [0, 10]"
    by (simp add: with_table_edges_def)
  have t: "text_only_row [0, 10] [[mk_word ''A'' 0 8], [mk_word ''B'' 12 14]] = ([''A''], [])"
    by (simp add: text_only_row_def text_only_place_word_def put_word_def mk_word_def)
  have s: "stream_row [(0, 8)] 3 0 [mk_word ''A'' 0 8, mk_word ''B'' 12 14]
       = ([''A''], [No_overlap_with_any_column ''B'' 1])"
    by (simp add: stream_row_def stream_place_word_def put_word_def mk_word_def)
  show ?thesis by (simp only: e t s)
qed

section \<open>Properties of the stream column boundaries\<close>

lemma fold_max_ge: "(m::nat) \<le> fold max xs m"
proof (induction xs arbitrary: m)
  case Nil
  then show ?case by simp
next
  case (Cons x xs)
  have "m \<le> max x m" by simp
  also have "\<dots> \<le> fold max xs (max x m)" by (rule Cons.IH)
  finally show ?case by simp
qed

lemma count_step_fold:
  "fold count_step rows (m, acc) =
     (let M = fold max (map length rows) m
      in (M, (if M = m then acc else []) @ filter (\<lambda>r. length r = M) rows))"
proof (induction rows arbitrary: m acc)
  case Nil
  then show ?case by simp
next
  case (Cons r rs)
  let ?M = "fold max (map length (r # rs)) m"
  have M: "?M = fold max (map length rs) (max (length r) m)" by simp
  consider (gt) "length r > m" | (eq) "length r = m" | (lt) "length r < m" by linarith
  then show ?case
  proof cases
    case gt
    then have mx: "max (length r) m = length r" by simp
    have "length r \<le> fold max (map length rs) (length r)" by (rule fold_max_ge)
    with gt have ne: "fold max (map length rs) (length r) \<noteq> m" by linarith
    have s: "count_step r (m, acc) = (length r, [r])" using gt by (simp add: count_step_def)
    show ?thesis
      unfolding fold_Cons comp_apply s Cons.IH M mx Let_def using ne by simp
  next
    case eq
    then have mx: "max (length r) m = m" by simp
    have s: "count_step r (m, acc) = (m, acc @ [r])" using eq by (simp add: count_step_def)
    show ?thesis
      unfolding fold_Cons comp_apply s Cons.IH M mx Let_def using eq by simp
  next
    case lt
    then have mx: "max (length r) m = m" by simp
    have "m \<le> fold max (map length rs) m" by (rule fold_max_ge)
    with lt have ne: "length r \<noteq> fold max (map length rs) m" by linarith
    have s: "count_step r (m, acc) = (m, acc)" using lt by (simp add: count_step_def)
    show ?thesis
      unfolding fold_Cons comp_apply s Cons.IH M mx Let_def using ne by simp
  qed
qed

lemma fold_max_Max:
  assumes "rows \<noteq> []"
  shows "fold max (map length rows) 0 = Max (length ` set rows)"
proof -
  have "fold max (map length rows) 0 = Max (set (0 # map length rows))"
    by (simp only: Max.set_eq_fold)
  also have "\<dots> = Max (insert 0 (length ` set rows))" by simp
  also have "\<dots> = Max (length ` set rows)"
    using assms by (subst Max_insert) auto
  finally show ?thesis .
qed

lemma max_words_eq:
  assumes "word_rows \<noteq> []"
  shows "max_words word_rows =
     (Max (length ` set word_rows),
      filter (\<lambda>r. length r = Max (length ` set word_rows)) word_rows)"
  unfolding max_words_def count_step_fold Let_def fold_max_Max [OF assms] by simp


lemma collect_word_fold:
  assumes "n + length ws \<le> m" and "length a = m" and "length b = m"
  shows "fold (collect_word m) (enumerate n ws) (a, b) =
     (map (\<lambda>i. if n \<le> i \<and> i < n + length ws then a ! i @ [w_x0 (ws ! (i - n))] else a ! i) [0..<m],
      map (\<lambda>i. if n \<le> i \<and> i < n + length ws then b ! i @ [w_x1 (ws ! (i - n))] else b ! i) [0..<m])"
  using assms
proof (induction ws arbitrary: n a b)
  case Nil
  then show ?case by (auto intro!: nth_equalityI)
next
  case (Cons w ws)
  let ?a = "a[n := a ! n @ [w_x0 w]]" and ?b = "b[n := b ! n @ [w_x1 w]]"
  from Cons.prems have n: "n < m" by simp
  have step: "collect_word m (n, w) (a, b) = (?a, ?b)"
    using n by (simp add: collect_word_def)
  have IH: "fold (collect_word m) (enumerate (Suc n) ws) (?a, ?b) =
     (map (\<lambda>i. if Suc n \<le> i \<and> i < Suc n + length ws then ?a ! i @ [w_x0 (ws ! (i - Suc n))] else ?a ! i) [0..<m],
      map (\<lambda>i. if Suc n \<le> i \<and> i < Suc n + length ws then ?b ! i @ [w_x1 (ws ! (i - Suc n))] else ?b ! i) [0..<m])"
    using Cons.prems by (intro Cons.IH) simp_all
  have A: "map (\<lambda>i. if Suc n \<le> i \<and> i < Suc n + length ws then ?a ! i @ [w_x0 (ws ! (i - Suc n))] else ?a ! i) [0..<m]
         = map (\<lambda>i. if n \<le> i \<and> i < n + length (w # ws) then a ! i @ [w_x0 ((w # ws) ! (i - n))] else a ! i) [0..<m]"
    using Cons.prems by (intro map_cong refl) (auto simp: nth_list_update nth_Cons' Suc_diff_le)
  have B: "map (\<lambda>i. if Suc n \<le> i \<and> i < Suc n + length ws then ?b ! i @ [w_x1 (ws ! (i - Suc n))] else ?b ! i) [0..<m]
         = map (\<lambda>i. if n \<le> i \<and> i < n + length (w # ws) then b ! i @ [w_x1 ((w # ws) ! (i - n))] else b ! i) [0..<m]"
    using Cons.prems by (intro map_cong refl) (auto simp: nth_list_update nth_Cons' Suc_diff_le)
  show ?case
    by (simp only: enumerate_simps fold_Cons comp_apply step IH A B)
qed

lemma collect_row_full:
  assumes "length row = m"
  shows "fold (collect_word m) (enumerate 0 row)
           (map (\<lambda>i. map (\<lambda>r. w_x0 (r ! i)) done) [0..<m], map (\<lambda>i. map (\<lambda>r. w_x1 (r ! i)) done) [0..<m])
       = (map (\<lambda>i. map (\<lambda>r. w_x0 (r ! i)) (done @ [row])) [0..<m],
          map (\<lambda>i. map (\<lambda>r. w_x1 (r ! i)) (done @ [row])) [0..<m])"
  using assms by (subst collect_word_fold) auto

lemma collect_rows_fold:
  assumes "\<forall>r\<in>set rows. length r = m"
  shows "fold (\<lambda>row st. fold (collect_word m) (enumerate 0 row) st) rows
           (map (\<lambda>i. map (\<lambda>r. w_x0 (r ! i)) done) [0..<m], map (\<lambda>i. map (\<lambda>r. w_x1 (r ! i)) done) [0..<m])
       = (map (\<lambda>i. map (\<lambda>r. w_x0 (r ! i)) (done @ rows)) [0..<m],
          map (\<lambda>i. map (\<lambda>r. w_x1 (r ! i)) (done @ rows)) [0..<m])"
  using assms
proof (induction rows arbitrary: "done")
  case Nil
  then show ?case by simp
next
  case (Cons row rows)
  then have l: "length row = m" and r: "\<forall>r\<in>set rows. length r = m" by simp_all
  show ?case
    by (simp only: fold_Cons comp_apply collect_row_full [OF l] Cons.IH [OF r]) simp
qed

lemma collect_columns_eq:
  assumes "\<forall>r\<in>set rows. length r = m"
  shows "collect_columns m rows =
       (map (\<lambda>i. map (\<lambda>r. w_x0 (r ! i)) rows) [0..<m],
        map (\<lambda>i. map (\<lambda>r. w_x1 (r ! i)) rows) [0..<m])"
proof -
  have e: "(replicate m [], replicate m []) =
      (map (\<lambda>i. map (\<lambda>r. w_x0 (r ! i)) []) [0..<m], map (\<lambda>i. map (\<lambda>r. w_x1 (r ! i)) []) [0..<m])"
    by (simp add: map_replicate_const)
  show ?thesis
    using collect_rows_fold [OF assms, of "[]"]
    by (simp add: collect_columns_def map_replicate_const)
qed

lemma py_min_Min: "xs \<noteq> [] \<Longrightarrow> py_min xs = Min (set xs)"
  by (cases xs) (simp_all add: py_min_def Min.set_eq_fold del: set_simps)

lemma py_max_Max: "xs \<noteq> [] \<Longrightarrow> py_max xs = Max (set xs)"
  by (cases xs) (simp_all add: py_max_def Max.set_eq_fold del: set_simps)

lemma column_boundaries_eq:
  assumes "\<forall>r\<in>set rows. length r = m" and "rows \<noteq> []"
  shows "column_boundaries m rows =
     map (\<lambda>i. (Min ((\<lambda>r. w_x0 (r ! i)) ` set rows), Max ((\<lambda>r. w_x1 (r ! i)) ` set rows))) [0..<m]"
proof -
  have "column_boundaries m rows =
      concat (map (\<lambda>i. [(py_min (map (\<lambda>r. w_x0 (r ! i)) rows), py_max (map (\<lambda>r. w_x1 (r ! i)) rows))]) [0..<m])"
  proof -
    let ?x0s = "map (\<lambda>i. map (\<lambda>r. w_x0 (r ! i)) rows) [0..<m]"
    let ?x1s = "map (\<lambda>i. map (\<lambda>r. w_x1 (r ! i)) rows) [0..<m]"
    have "map (\<lambda>i. if ?x0s ! i \<noteq> [] \<and> ?x1s ! i \<noteq> []
                     then [(py_min (?x0s ! i), py_max (?x1s ! i))] else []) [0..<m]
        = map (\<lambda>i. [(py_min (map (\<lambda>r. w_x0 (r ! i)) rows), py_max (map (\<lambda>r. w_x1 (r ! i)) rows))]) [0..<m]"
      using assms(2) by (intro map_cong refl) simp
    then show ?thesis
      by (simp only: column_boundaries_def collect_columns_eq [OF assms(1)] prod.case)
  qed
  also have "\<dots> = map (\<lambda>i. (py_min (map (\<lambda>r. w_x0 (r ! i)) rows), py_max (map (\<lambda>r. w_x1 (r ! i)) rows))) [0..<m]"
    by (induction m) simp_all
  also have "\<dots> = map (\<lambda>i. (Min ((\<lambda>r. w_x0 (r ! i)) ` set rows), Max ((\<lambda>r. w_x1 (r ! i)) ` set rows))) [0..<m]"
    using assms(2) by (simp add: py_min_Min py_max_Max)
  finally show ?thesis .
qed

lemma standard_rows_nonempty:
  assumes "word_rows \<noteq> []"
  shows "filter (\<lambda>r. length r = Max (length ` set word_rows)) word_rows \<noteq> []"
proof -
  have "Max (length ` set word_rows) \<in> length ` set word_rows"
    using assms by (intro Max_in) auto
  then obtain r where "r \<in> set word_rows" "length r = Max (length ` set word_rows)" by auto
  then show ?thesis by (auto simp: filter_empty_conv)
qed

text \<open>
  Claim C1, as the code has it: a row is standard exactly when its word count is the
  largest word count of any row of the table; the rows kept for the boundaries are
  exactly the standard rows; and the boundary of position \<open>i\<close> is the least \<open>x0\<close> and
  the greatest \<open>x1\<close> of the \<open>i\<close>-th words of the standard rows, for every position below
  that largest count.
\<close>

theorem stream_standard_rows:
  assumes "word_rows \<noteq> []"
  shows "(is_standard_row word_rows r \<longleftrightarrow> length r = Max (length ` set word_rows))
   \<and> snd (max_words word_rows) = filter (is_standard_row word_rows) word_rows
   \<and> stream_boundaries word_rows =
       map (\<lambda>i. (Min ((\<lambda>r. w_x0 (r ! i)) ` set (filter (is_standard_row word_rows) word_rows)),
                 Max ((\<lambda>r. w_x1 (r ! i)) ` set (filter (is_standard_row word_rows) word_rows))))
           [0..<Max (length ` set word_rows)]"
proof -
  let ?M = "Max (length ` set word_rows)"
  let ?S = "filter (\<lambda>r. length r = ?M) word_rows"
  have mw: "max_words word_rows = (?M, ?S)" by (rule max_words_eq [OF assms])
  have std: "is_standard_row word_rows = (\<lambda>r. length r = ?M)"
    by (simp add: is_standard_row_def mw fun_eq_iff)
  have len: "\<forall>r\<in>set ?S. length r = ?M" by simp
  have ne: "?S \<noteq> []" by (rule standard_rows_nonempty [OF assms])
  have "stream_boundaries word_rows = column_boundaries ?M ?S"
    by (simp add: stream_boundaries_def mw)
  also have "\<dots> = map (\<lambda>i. (Min ((\<lambda>r. w_x0 (r ! i)) ` set ?S), Max ((\<lambda>r. w_x1 (r ! i)) ` set ?S)))
                       [0..<?M]"
    by (rule column_boundaries_eq [OF len ne])
  finally have b: "stream_boundaries word_rows =
      map (\<lambda>i. (Min ((\<lambda>r. w_x0 (r ! i)) ` set ?S), Max ((\<lambda>r. w_x1 (r ! i)) ` set ?S))) [0..<?M]" .
  show ?thesis
    unfolding std using mw b by simp
qed

theorem stream_standard_rows_witness:
  "example_word_rows \<noteq> []
   \<and> (is_standard_row example_word_rows [mk_word ''Total'' 0 20]
        \<longleftrightarrow> length [mk_word ''Total'' 0 20] = Max (length ` set example_word_rows))
   \<and> snd (max_words example_word_rows) = filter (is_standard_row example_word_rows) example_word_rows
   \<and> stream_boundaries example_word_rows =
       map (\<lambda>i. (Min ((\<lambda>r. w_x0 (r ! i)) ` set (filter (is_standard_row example_word_rows) example_word_rows)),
                 Max ((\<lambda>r. w_x1 (r ! i)) ` set (filter (is_standard_row example_word_rows) example_word_rows))))
           [0..<Max (length ` set example_word_rows)]"
proof -
  have h: "example_word_rows \<noteq> []" by (simp add: example_word_rows_def)
  from stream_standard_rows [OF h, of "[mk_word ''Total'' 0 20]"] h show ?thesis by blast
qed

lemma example_max_words:
  "max_words example_word_rows = (2, [[mk_word ''a'' 0 5, mk_word ''b'' 30 35]])"
  by (simp add: max_words_def count_step_def example_word_rows_def)

lemma example_stream_boundaries: "stream_boundaries example_word_rows = [(0, 5), (30, 35)]"
proof -
  have u: "[0..<2] = [0, 1::nat]" by (simp add: upt_rec)
  show ?thesis
    by (simp add: stream_boundaries_def example_max_words column_boundaries_def
          collect_columns_def collect_word_def py_min_def py_max_def mk_word_def u
          numeral_2_eq_2)
qed

text \<open>
  The claim as written fails on these three rows: the most common word count is 1, yet
  the one-word rows are not standard and the single two-word row is.
\<close>

theorem standard_row_not_modal_counterexample:
  "most_common (map length example_word_rows) = 1
   \<and> \<not> is_standard_row example_word_rows [mk_word ''Total'' 0 20]
   \<and> is_standard_row example_word_rows [mk_word ''a'' 0 5, mk_word ''b'' 30 35]"
  by (simp add: is_standard_row_def example_max_words)
     (simp add: most_common_def example_word_rows_def)

section \<open>Properties of the text-alignment detector\<close>













section \<open>Properties of the cross-page stitcher\<close>

lemma merged_table_fields:
  "ti_is_merged (merged_table b t c n)"
  "ti_data (merged_table b t c n) = ti_data b @ ti_data t"
  "ti_bbox (merged_table b t c n)
     = (bbox_x0 (ti_bbox b), bbox_y0 (ti_bbox b), bbox_x1 (ti_bbox b), bbox_y1 (ti_bbox t))"
  "ti_merged_pages (merged_table b t c n) = [c, n]"
  "table_id (merged_table b t c n) = table_id b"
  by (simp_all add: merged_table_def table_id_def)

lemma merge_step_processed_mono:
  "snd st \<subseteq> snd (merge_step all_tables pages st)"
  by (cases st; cases pages) (auto simp: merge_step_def Let_def)

lemma merge_loop_processed_mono:
  "snd st \<subseteq> snd (fold (merge_step all_tables) ps st)"
proof (induction ps arbitrary: st)
  case Nil
  then show ?case by simp
next
  case (Cons p ps)
  have "snd st \<subseteq> snd (merge_step all_tables p st)" by (rule merge_step_processed_mono)
  also have "\<dots> \<subseteq> snd (fold (merge_step all_tables) ps (merge_step all_tables p st))"
    by (rule Cons.IH)
  finally show ?case by simp
qed

text \<open>
  Claim C2, as the code has it.  For consecutive pages that both have tables, the step of
  the stitcher merges the bottom-most table of the first page with the top-most table of
  the second exactly when neither is marked processed yet, the orientations and the
  column counts are equal, the left edges and the right edges each differ by less than
  10 units, and the bottom lies within 12 units of the orientation's greatest bottom or
  the top within 2 units of its least top.  The merged table has the rows of the first
  followed by the rows of the second, the top of the first and the bottom of the second;
  both ids are then processed, and an id once processed stays so for the rest of the
  loop, so no table enters a second merge.
\<close>

theorem merge_step_spec:
  assumes "next_page = current_page + 1"
    and "tables_by_page all_tables current_page \<noteq> []"
    and "tables_by_page all_tables next_page \<noteq> []"
    and "b = bottom_tables_by_page all_tables current_page"
    and "t = top_tables_by_page all_tables next_page"
    and "\<not> ti_is_merged b"
  shows "(merge_step all_tables (current_page, next_page) (merged_tables, processed)
            = (merged_tables @ [merged_table b t current_page next_page],
               insert (table_id t) (insert (table_id b) processed))
          \<longleftrightarrow> table_id b \<notin> processed \<and> table_id t \<notin> processed
              \<and> ti_orientation b = ti_orientation t
              \<and> ti_max_cols b = ti_max_cols t
              \<and> \<bar>bbox_x0 (ti_bbox b) - bbox_x0 (ti_bbox t)\<bar> < 10
              \<and> \<bar>bbox_x1 (ti_bbox b) - bbox_x1 (ti_bbox t)\<bar> < 10
              \<and> (max_global_y1 all_tables (ti_orientation b) - bbox_y1 (ti_bbox b) \<le> 12
                   \<or> bbox_y0 (ti_bbox t) - min_global_y0 all_tables (ti_orientation b) \<le> 2))
     \<and> ti_data (merged_table b t current_page next_page) = ti_data b @ ti_data t
     \<and> bbox_y0 (ti_bbox (merged_table b t current_page next_page)) = bbox_y0 (ti_bbox b)
     \<and> bbox_y1 (ti_bbox (merged_table b t current_page next_page)) = bbox_y1 (ti_bbox t)
     \<and> processed \<subseteq> snd (fold (merge_step all_tables) ps (merged_tables, processed))"
proof -
  let ?m = "merged_table b t current_page next_page"
  let ?cond = "table_id b \<notin> processed \<and> table_id t \<notin> processed
              \<and> ti_orientation b = ti_orientation t
              \<and> should_merge all_tables b t"
  have ne: "b \<noteq> ?m"
  proof
    assume "b = ?m"
    then have "ti_is_merged b = ti_is_merged ?m" by simp
    with assms(6) show False by (simp add: merged_table_fields)
  qed
  have step: "merge_step all_tables (current_page, next_page) (merged_tables, processed) =
      (if table_id b \<in> processed then (merged_tables, processed)
       else if table_id t \<in> processed then (merged_tables, processed)
       else if ti_orientation b \<noteq> ti_orientation t then (merged_tables, processed)
       else if should_merge all_tables b t
       then (merged_tables @ [?m], insert (table_id t) (insert (table_id b) processed))
       else (merged_tables @ [b], insert (table_id b) processed))"
    using assms(1-3) by (simp add: merge_step_def Let_def assms(4,5))
  have A: "merge_step all_tables (current_page, next_page) (merged_tables, processed)
            = (merged_tables @ [?m], insert (table_id t) (insert (table_id b) processed))
          \<longleftrightarrow> ?cond"
    unfolding step using ne by auto
  have S: "should_merge all_tables b t \<longleftrightarrow>
       ti_max_cols b = ti_max_cols t
     \<and> \<bar>bbox_x0 (ti_bbox b) - bbox_x0 (ti_bbox t)\<bar> < 10
     \<and> \<bar>bbox_x1 (ti_bbox b) - bbox_x1 (ti_bbox t)\<bar> < 10
     \<and> (max_global_y1 all_tables (ti_orientation b) - bbox_y1 (ti_bbox b) \<le> 12
          \<or> bbox_y0 (ti_bbox t) - min_global_y0 all_tables (ti_orientation b) \<le> 2)"
    by (simp add: should_merge_def Let_def)
  have M: "processed \<subseteq> snd (fold (merge_step all_tables) ps (merged_tables, processed))"
    using merge_loop_processed_mono [of "(merged_tables, processed)" all_tables ps]
    by simp
  show ?thesis
    using A S M by (simp add: merged_table_fields bbox_y0_def bbox_y1_def)
qed

lemma example_chain_result:
  "merge_cross_page_tables example_chain =
     [merged_table (example_chain ! 0) (example_chain ! 1) 1 2, example_chain ! 2]"
  by code_simp

lemma example_offset_result:
  "merge_cross_page_tables example_offset = [example_offset ! 0, example_offset ! 1]"
  by code_simp

text \<open>
  The claim as written fails on a chain: three consecutive pages with one table each, all
  of the same orientation, columns, edges and extent.  The tables of pages 2 and 3 meet
  every listed condition, yet the table of page 2 was used up by the merge with page 1
  and the table of page 3 is returned unmerged.
\<close>

theorem merge_iff_counterexample:
  "bottom_tables_by_page example_chain 2 = example_chain ! 1
   \<and> top_tables_by_page example_chain 3 = example_chain ! 2
   \<and> ti_orientation (example_chain ! 1) = ti_orientation (example_chain ! 2)
   \<and> ti_max_cols (example_chain ! 1) = ti_max_cols (example_chain ! 2)
   \<and> \<bar>bbox_x0 (ti_bbox (example_chain ! 1)) - bbox_x0 (ti_bbox (example_chain ! 2))\<bar> \<le> 10
   \<and> \<bar>bbox_x1 (ti_bbox (example_chain ! 1)) - bbox_x1 (ti_bbox (example_chain ! 2))\<bar> \<le> 10
   \<and> max_global_y1 example_chain Portrait - bbox_y1 (ti_bbox (example_chain ! 1)) \<le> 12
   \<and> merge_cross_page_tables example_chain =
       [merged_table (example_chain ! 0) (example_chain ! 1) 1 2, example_chain ! 2]"
proof -
  have "bottom_tables_by_page example_chain 2 = example_chain ! 1" by code_simp
  moreover have "top_tables_by_page example_chain 3 = example_chain ! 2" by code_simp
  moreover have "ti_orientation (example_chain ! 1) = ti_orientation (example_chain ! 2)"
    by (simp add: example_chain_def mk_table_def)
  moreover have "ti_max_cols (example_chain ! 1) = ti_max_cols (example_chain ! 2)"
    by (simp add: example_chain_def mk_table_def)
  moreover have "\<bar>bbox_x0 (ti_bbox (example_chain ! 1)) - bbox_x0 (ti_bbox (example_chain ! 2))\<bar> \<le> 10"
    by (simp add: example_chain_def mk_table_def bbox_x0_def)
  moreover have "\<bar>bbox_x1 (ti_bbox (example_chain ! 1)) - bbox_x1 (ti_bbox (example_chain ! 2))\<bar> \<le> 10"
    by (simp add: example_chain_def mk_table_def bbox_x1_def)
  moreover have "max_global_y1 example_chain Portrait - bbox_y1 (ti_bbox (example_chain ! 1)) \<le> 12"
    by (simp add: example_chain_def mk_table_def bbox_y1_def max_global_y1_def py_max_def)
  ultimately show ?thesis using example_chain_result by blast
qed

theorem merge_step_spec_witness:
  "merge_step example_chain (1, 2) ([], {})
     = ([merged_table (example_chain ! 0) (example_chain ! 1) 1 2], {(2, 1), (1, 1)})"
proof -
  have h1: "(2::nat) = 1 + 1" by simp
  have h2: "tables_by_page example_chain 1 \<noteq> []" by code_simp
  have h3: "tables_by_page example_chain 2 \<noteq> []" by code_simp
  have h4: "example_chain ! 0 = bottom_tables_by_page example_chain 1" by code_simp
  have h5: "example_chain ! 1 = top_tables_by_page example_chain 2" by code_simp
  have h6: "\<not> ti_is_merged (example_chain ! 0)" by (simp add: example_chain_def mk_table_def)
  have c: "table_id (example_chain ! 0) \<notin> {} \<and> table_id (example_chain ! 1) \<notin> {}
      \<and> ti_orientation (example_chain ! 0) = ti_orientation (example_chain ! 1)
      \<and> ti_max_cols (example_chain ! 0) = ti_max_cols (example_chain ! 1)
      \<and> \<bar>bbox_x0 (ti_bbox (example_chain ! 0)) - bbox_x0 (ti_bbox (example_chain ! 1))\<bar> < 10
      \<and> \<bar>bbox_x1 (ti_bbox (example_chain ! 0)) - bbox_x1 (ti_bbox (example_chain ! 1))\<bar> < 10
      \<and> (max_global_y1 example_chain (ti_orientation (example_chain ! 0))
             - bbox_y1 (ti_bbox (example_chain ! 0)) \<le> 12
          \<or> bbox_y0 (ti_bbox (example_chain ! 1))
             - min_global_y0 example_chain (ti_orientation (example_chain ! 0)) \<le> 2)"
    by (simp add: example_chain_def mk_table_def bbox_x0_def bbox_x1_def bbox_y1_def
          max_global_y1_def py_max_def)
  have i: "table_id (example_chain ! 0) = (1, 1)" "table_id (example_chain ! 1) = (2, 1)"
    by (simp_all add: example_chain_def mk_table_def table_id_def)
  from merge_step_spec [OF h1 h2 h3 h4 h5 h6, of "[]" "{}"] c
  have "merge_step example_chain (1, 2) ([], {})
      = ([] @ [merged_table (example_chain ! 0) (example_chain ! 1) 1 2],
         insert (table_id (example_chain ! 1)) (insert (table_id (example_chain ! 0)) {}))"
    by blast
  then show ?thesis unfolding i by simp
qed

end
